theory Spec2Isabelle
  imports Main "HOL-Library.Multiset" "HOL-Library.Log_Nat"
begin

section \<open>The schema of the migration\<close>

text \<open>
  The tables of \<^verbatim>\<open>supabase/migrations/20251117140442_...sql\<close>. A UUID is a natural
  number. A column without \<^verbatim>\<open>NOT NULL\<close> that a policy, a constraint or a query reads
  is an option (\<open>None\<close> is SQL's NULL). Columns that nothing in the modelled code reads
  (\<^verbatim>\<open>created_at\<close>, \<^verbatim>\<open>updated_at\<close>, \<^verbatim>\<open>vote_token\<close>, \<^verbatim>\<open>image_url\<close>) are left out, and so is
  the \<^verbatim>\<open>profiles\<close> table. The table \<^verbatim>\<open>auth.users\<close> belongs to the authentication provider;
  only its column \<^verbatim>\<open>id\<close> is referenced, so it is the list of the ids of its rows.
\<close>

type_synonym uuid = nat

type_synonym timestamptz = nat

datatype app_role = Admin | Student

datatype election_status = Draft | Active | Closed

datatype jsonb = JUuid uuid | JString string

record user_role =
  ur_id :: uuid
  ur_user_id :: uuid
  ur_role :: app_role

record election =
  e_id :: uuid
  e_title :: string
  e_description :: "string option"
  e_status :: "election_status option"
  e_is_anonymous :: "bool option"
  e_start_date :: "timestamptz option"
  e_end_date :: "timestamptz option"
  e_created_by :: "uuid option"

record candidate =
  c_id :: uuid
  c_election_id :: uuid
  c_name :: string
  c_description :: "string option"

record vote =
  v_id :: uuid
  v_election_id :: uuid
  v_candidate_id :: uuid
  v_voter_id :: "uuid option"

record audit_log =
  a_id :: uuid
  a_user_id :: "uuid option"
  a_action :: string
  a_details :: "(string \<times> jsonb) list"

record db =
  users :: "uuid list"
  user_roles :: "user_role list"
  elections :: "election list"
  candidates :: "candidate list"
  votes :: "vote list"
  audit_logs :: "audit_log list"

text \<open>
  The errors of the storage engine, named after their SQLSTATE conditions: 42501 with the
  table whose row-level security rejected the row, 23505 with the violated unique
  constraint, 23503 with the violated foreign key. The specification's
  \<open>DuplicateVote\<close> is \<open>unique_violation ''votes_election_id_voter_id_key''\<close>, its
  \<open>PermissionDenied\<close> is \<open>insufficient_privilege\<close>.
\<close>

datatype pg_error =
    insufficient_privilege string
  | unique_violation string
  | foreign_key_violation string

section \<open>Roles and row-level security policies\<close>

text \<open>
  \<^verbatim>\<open>auth.uid()\<close> is the caller: \<open>Some u\<close> for a request of the authenticated principal
  \<open>u\<close>, \<open>None\<close> for an anonymous request. Every policy of the migration is
  \<^verbatim>\<open>TO authenticated\<close>, so none applies to an anonymous request, and a table with
  row-level security enabled and no applicable policy shows and accepts no row.
\<close>

definition authenticated :: "uuid option \<Rightarrow> bool" where
  "authenticated uid = (uid \<noteq> None)"

definition has_role :: "db \<Rightarrow> uuid option \<Rightarrow> app_role \<Rightarrow> bool" where
  "has_role d user_id role =
     (\<exists>r \<in> set (user_roles d). Some (ur_user_id r) = user_id \<and> ur_role r = role)"

text \<open>Policies "Users can view all roles" and "Only admins can manage roles".\<close>

definition user_roles_select_using :: "db \<Rightarrow> uuid option \<Rightarrow> user_role \<Rightarrow> bool" where
  "user_roles_select_using d uid r = authenticated uid"

definition user_roles_all_using :: "db \<Rightarrow> uuid option \<Rightarrow> user_role \<Rightarrow> bool" where
  "user_roles_all_using d uid r = (authenticated uid \<and> has_role d uid Admin)"

text \<open>Policy "Everyone can view active elections".\<close>

definition elections_select_using :: "db \<Rightarrow> uuid option \<Rightarrow> election \<Rightarrow> bool" where
  "elections_select_using d uid e =
     (authenticated uid \<and> (e_status e = Some Active \<or> has_role d uid Admin))"

text \<open>Policies "Only admins can create / update / delete elections".\<close>

definition elections_insert_check :: "db \<Rightarrow> uuid option \<Rightarrow> election \<Rightarrow> bool" where
  "elections_insert_check d uid e = (authenticated uid \<and> has_role d uid Admin)"

definition elections_update_using :: "db \<Rightarrow> uuid option \<Rightarrow> election \<Rightarrow> bool" where
  "elections_update_using d uid e = (authenticated uid \<and> has_role d uid Admin)"

definition elections_delete_using :: "db \<Rightarrow> uuid option \<Rightarrow> election \<Rightarrow> bool" where
  "elections_delete_using d uid e = (authenticated uid \<and> has_role d uid Admin)"

text \<open>Policies "Everyone can view candidates" and "Only admins can manage candidates".\<close>

definition candidates_select_using :: "db \<Rightarrow> uuid option \<Rightarrow> candidate \<Rightarrow> bool" where
  "candidates_select_using d uid c = authenticated uid"

definition candidates_all_using :: "db \<Rightarrow> uuid option \<Rightarrow> candidate \<Rightarrow> bool" where
  "candidates_all_using d uid c = (authenticated uid \<and> has_role d uid Admin)"

text \<open>
  Policies "Users can view own votes in non-anonymous elections" and
  "Users can cast votes". A NULL \<^verbatim>\<open>voter_id\<close> makes \<^verbatim>\<open>voter_id = auth.uid()\<close> NULL, which
  a policy treats as false. The votes table has no policy for UPDATE or DELETE.
\<close>

definition votes_select_using :: "db \<Rightarrow> uuid option \<Rightarrow> vote \<Rightarrow> bool" where
  "votes_select_using d uid v =
     (authenticated uid \<and> ((v_voter_id v \<noteq> None \<and> v_voter_id v = uid) \<or> has_role d uid Admin))"

definition votes_insert_check :: "db \<Rightarrow> uuid option \<Rightarrow> vote \<Rightarrow> bool" where
  "votes_insert_check d uid v = (authenticated uid \<and> v_voter_id v \<noteq> None \<and> v_voter_id v = uid)"

definition votes_update_using :: "db \<Rightarrow> uuid option \<Rightarrow> vote \<Rightarrow> bool" where
  "votes_update_using d uid v = False"

definition votes_delete_using :: "db \<Rightarrow> uuid option \<Rightarrow> vote \<Rightarrow> bool" where
  "votes_delete_using d uid v = False"

text \<open>Policies "Only admins can view audit logs" and "System can insert audit logs".\<close>

definition audit_logs_select_using :: "db \<Rightarrow> uuid option \<Rightarrow> audit_log \<Rightarrow> bool" where
  "audit_logs_select_using d uid a = (authenticated uid \<and> has_role d uid Admin)"

definition audit_logs_insert_check :: "db \<Rightarrow> uuid option \<Rightarrow> audit_log \<Rightarrow> bool" where
  "audit_logs_insert_check d uid a = authenticated uid"

section \<open>Statements against the tables\<close>

text \<open>
  One statement is one atomic step of the storage engine. An INSERT checks the policy's
  WITH CHECK on the new row, then the unique indexes, then the foreign keys, and either
  stores the row or fails and leaves the database as it was. An UPDATE or DELETE touches
  only the rows its policy's USING shows; when it shows none, the statement succeeds on
  zero rows.
\<close>

definition fk_user :: "db \<Rightarrow> uuid option \<Rightarrow> bool" where
  "fk_user d u = (case u of None \<Rightarrow> True | Some i \<Rightarrow> i \<in> set (users d))"

definition insert_role :: "db \<Rightarrow> uuid option \<Rightarrow> user_role \<Rightarrow> pg_error + db" where
  "insert_role d uid r =
     (if \<not> user_roles_all_using d uid r then Inl (insufficient_privilege ''user_roles'')
      else if ur_id r \<in> ur_id ` set (user_roles d) then Inl (unique_violation ''user_roles_pkey'')
      else if \<exists>s \<in> set (user_roles d). ur_user_id s = ur_user_id r \<and> ur_role s = ur_role r
        then Inl (unique_violation ''user_roles_user_id_role_key'')
      else if ur_user_id r \<notin> set (users d) then Inl (foreign_key_violation ''user_roles_user_id_fkey'')
      else Inr (d\<lparr>user_roles := user_roles d @ [r]\<rparr>))"

definition delete_role :: "db \<Rightarrow> uuid option \<Rightarrow> uuid \<Rightarrow> pg_error + db" where
  "delete_role d uid i =
     Inr (d\<lparr>user_roles := filter (\<lambda>r. \<not> (ur_id r = i \<and> user_roles_all_using d uid r)) (user_roles d)\<rparr>)"

definition insert_election :: "db \<Rightarrow> uuid option \<Rightarrow> election \<Rightarrow> pg_error + db" where
  "insert_election d uid e =
     (if \<not> elections_insert_check d uid e then Inl (insufficient_privilege ''elections'')
      else if e_id e \<in> e_id ` set (elections d) then Inl (unique_violation ''elections_pkey'')
      else if \<not> fk_user d (e_created_by e) then Inl (foreign_key_violation ''elections_created_by_fkey'')
      else Inr (d\<lparr>elections := elections d @ [e]\<rparr>))"

text \<open>
  \<^verbatim>\<open>UPDATE elections SET ... WHERE id = i\<close>, every column set from \<open>e'\<close>. The policy has
  only USING, which then also checks the new row. The foreign keys of candidates and
  votes have no ON UPDATE action: changing a referenced id is an error.
\<close>

definition update_election :: "db \<Rightarrow> uuid option \<Rightarrow> uuid \<Rightarrow> election \<Rightarrow> pg_error + db" where
  "update_election d uid i e' =
     (if \<not> (\<exists>e \<in> set (elections d). e_id e = i \<and> elections_update_using d uid e) then Inr d
      else if \<not> elections_update_using d uid e' then Inl (insufficient_privilege ''elections'')
      else if e_id e' \<noteq> i \<and> e_id e' \<in> e_id ` set (elections d)
        then Inl (unique_violation ''elections_pkey'')
      else if \<not> fk_user d (e_created_by e') then Inl (foreign_key_violation ''elections_created_by_fkey'')
      else if e_id e' \<noteq> i \<and> i \<in> c_election_id ` set (candidates d)
        then Inl (foreign_key_violation ''candidates_election_id_fkey'')
      else if e_id e' \<noteq> i \<and> i \<in> v_election_id ` set (votes d)
        then Inl (foreign_key_violation ''votes_election_id_fkey'')
      else Inr (d\<lparr>elections := map (\<lambda>e. if e_id e = i then e' else e) (elections d)\<rparr>))"

text \<open>
  \<^verbatim>\<open>DELETE FROM elections WHERE id = i\<close>. Both foreign keys to elections are
  ON DELETE CASCADE, and so is the one from votes to candidates: the candidates of the
  election go, and with them every vote that names the election or one of those
  candidates.
\<close>

definition delete_election :: "db \<Rightarrow> uuid option \<Rightarrow> uuid \<Rightarrow> pg_error + db" where
  "delete_election d uid i =
     (if \<not> (\<exists>e \<in> set (elections d). e_id e = i \<and> elections_delete_using d uid e) then Inr d
      else Inr (d\<lparr>elections := filter (\<lambda>e. e_id e \<noteq> i) (elections d),
                 candidates := filter (\<lambda>c. c_election_id c \<noteq> i) (candidates d),
                 votes := filter (\<lambda>v. v_election_id v \<noteq> i \<and>
                            v_candidate_id v \<notin> c_id ` {c \<in> set (candidates d). c_election_id c = i})
                          (votes d)\<rparr>))"

definition insert_candidate_row :: "db \<Rightarrow> uuid option \<Rightarrow> candidate \<Rightarrow> pg_error + db" where
  "insert_candidate_row d uid c =
     (if \<not> candidates_all_using d uid c then Inl (insufficient_privilege ''candidates'')
      else if c_id c \<in> c_id ` set (candidates d) then Inl (unique_violation ''candidates_pkey'')
      else if c_election_id c \<notin> e_id ` set (elections d)
        then Inl (foreign_key_violation ''candidates_election_id_fkey'')
      else Inr (d\<lparr>candidates := candidates d @ [c]\<rparr>))"

text \<open>
  An INSERT of several rows is one statement: the rows go in one after the other, and the
  first error undoes the whole statement.
\<close>

fun insert_candidate_rows :: "db \<Rightarrow> uuid option \<Rightarrow> candidate list \<Rightarrow> pg_error + db" where
  "insert_candidate_rows d uid [] = Inr d"
| "insert_candidate_rows d uid (c # cs) =
     (case insert_candidate_row d uid c of
        Inl err \<Rightarrow> Inl err
      | Inr d' \<Rightarrow> insert_candidate_rows d' uid cs)"

definition update_candidate :: "db \<Rightarrow> uuid option \<Rightarrow> uuid \<Rightarrow> candidate \<Rightarrow> pg_error + db" where
  "update_candidate d uid i c' =
     (if \<not> (\<exists>c \<in> set (candidates d). c_id c = i \<and> candidates_all_using d uid c) then Inr d
      else if \<not> candidates_all_using d uid c' then Inl (insufficient_privilege ''candidates'')
      else if c_id c' \<noteq> i \<and> c_id c' \<in> c_id ` set (candidates d)
        then Inl (unique_violation ''candidates_pkey'')
      else if c_election_id c' \<notin> e_id ` set (elections d)
        then Inl (foreign_key_violation ''candidates_election_id_fkey'')
      else if c_id c' \<noteq> i \<and> i \<in> v_candidate_id ` set (votes d)
        then Inl (foreign_key_violation ''votes_candidate_id_fkey'')
      else Inr (d\<lparr>candidates := map (\<lambda>c. if c_id c = i then c' else c) (candidates d)\<rparr>))"

definition delete_candidate :: "db \<Rightarrow> uuid option \<Rightarrow> uuid \<Rightarrow> pg_error + db" where
  "delete_candidate d uid i =
     (if \<not> (\<exists>c \<in> set (candidates d). c_id c = i \<and> candidates_all_using d uid c) then Inr d
      else Inr (d\<lparr>candidates := filter (\<lambda>c. c_id c \<noteq> i) (candidates d),
                 votes := filter (\<lambda>v. v_candidate_id v \<noteq> i) (votes d)\<rparr>))"

text \<open>
  \<^verbatim>\<open>INSERT INTO votes\<close>. The index of \<^verbatim>\<open>UNIQUE(election_id, voter_id)\<close> treats NULLs as
  distinct, so only a row with a voter can collide.
\<close>

definition insert_vote :: "db \<Rightarrow> uuid option \<Rightarrow> vote \<Rightarrow> pg_error + db" where
  "insert_vote d uid v =
     (if \<not> votes_insert_check d uid v then Inl (insufficient_privilege ''votes'')
      else if v_id v \<in> v_id ` set (votes d) then Inl (unique_violation ''votes_pkey'')
      else if \<exists>w \<in> set (votes d). v_election_id w = v_election_id v \<and>
                 v_voter_id w \<noteq> None \<and> v_voter_id w = v_voter_id v
        then Inl (unique_violation ''votes_election_id_voter_id_key'')
      else if v_election_id v \<notin> e_id ` set (elections d)
        then Inl (foreign_key_violation ''votes_election_id_fkey'')
      else if v_candidate_id v \<notin> c_id ` set (candidates d)
        then Inl (foreign_key_violation ''votes_candidate_id_fkey'')
      else if \<not> fk_user d (v_voter_id v) then Inl (foreign_key_violation ''votes_voter_id_fkey'')
      else Inr (d\<lparr>votes := votes d @ [v]\<rparr>))"

text \<open>
  \<^verbatim>\<open>UPDATE votes SET ... WHERE q\<close> and \<^verbatim>\<open>DELETE FROM votes WHERE q\<close>, for any filter \<open>q\<close>
  and any new contents \<open>f\<close>: they touch the rows that match \<open>q\<close> and that the policy
  shows.
\<close>

definition update_votes :: "db \<Rightarrow> uuid option \<Rightarrow> (vote \<Rightarrow> bool) \<Rightarrow> (vote \<Rightarrow> vote) \<Rightarrow> pg_error + db" where
  "update_votes d uid q f =
     Inr (d\<lparr>votes := map (\<lambda>v. if q v \<and> votes_update_using d uid v then f v else v) (votes d)\<rparr>)"

definition delete_votes :: "db \<Rightarrow> uuid option \<Rightarrow> (vote \<Rightarrow> bool) \<Rightarrow> pg_error + db" where
  "delete_votes d uid q =
     Inr (d\<lparr>votes := filter (\<lambda>v. \<not> (q v \<and> votes_delete_using d uid v)) (votes d)\<rparr>)"

definition insert_audit_log :: "db \<Rightarrow> uuid option \<Rightarrow> audit_log \<Rightarrow> pg_error + db" where
  "insert_audit_log d uid a =
     (if \<not> audit_logs_insert_check d uid a then Inl (insufficient_privilege ''audit_logs'')
      else if a_id a \<in> a_id ` set (audit_logs d) then Inl (unique_violation ''audit_logs_pkey'')
      else if \<not> fk_user d (a_user_id a) then Inl (foreign_key_violation ''audit_logs_user_id_fkey'')
      else Inr (d\<lparr>audit_logs := audit_logs d @ [a]\<rparr>))"

text \<open>The statements a client can send, and the step of the engine on one of them.\<close>

datatype stmt =
    InsertRole user_role
  | DeleteRole uuid
  | InsertElection election
  | UpdateElection uuid election
  | DeleteElection uuid
  | InsertCandidates "candidate list"
  | UpdateCandidate uuid candidate
  | DeleteCandidate uuid
  | InsertVote vote
  | UpdateVotes "vote \<Rightarrow> bool" "vote \<Rightarrow> vote"
  | DeleteVotes "vote \<Rightarrow> bool"
  | InsertAuditLog audit_log

fun exec :: "db \<Rightarrow> uuid option \<Rightarrow> stmt \<Rightarrow> pg_error + db" where
  "exec d uid (InsertRole r) = insert_role d uid r"
| "exec d uid (DeleteRole i) = delete_role d uid i"
| "exec d uid (InsertElection e) = insert_election d uid e"
| "exec d uid (UpdateElection i e) = update_election d uid i e"
| "exec d uid (DeleteElection i) = delete_election d uid i"
| "exec d uid (InsertCandidates cs) = insert_candidate_rows d uid cs"
| "exec d uid (UpdateCandidate i c) = update_candidate d uid i c"
| "exec d uid (DeleteCandidate i) = delete_candidate d uid i"
| "exec d uid (InsertVote v) = insert_vote d uid v"
| "exec d uid (UpdateVotes q f) = update_votes d uid q f"
| "exec d uid (DeleteVotes q) = delete_votes d uid q"
| "exec d uid (InsertAuditLog a) = insert_audit_log d uid a"

text \<open>A failed statement leaves the database as it was.\<close>

definition commit :: "db \<Rightarrow> pg_error + db \<Rightarrow> db" where
  "commit d r = (case r of Inl err \<Rightarrow> d | Inr d' \<Rightarrow> d')"

text \<open>
  The requests of other sessions that the engine serves one after the other: each is a
  caller and a statement.
\<close>

fun run :: "db \<Rightarrow> (uuid option \<times> stmt) list \<Rightarrow> db" where
  "run d [] = d"
| "run d ((uid, s) # rest) = run (commit d (exec d uid s)) rest"

section \<open>Queries\<close>

text \<open>
  \<^verbatim>\<open>supabase.from("elections").select("*")\<close> with any filter \<open>q\<close> of the client: the
  engine first restricts the table to the rows the SELECT policy shows.
\<close>

definition select_elections :: "db \<Rightarrow> uuid option \<Rightarrow> (election \<Rightarrow> bool) \<Rightarrow> election list" where
  "select_elections d uid q = filter q (filter (elections_select_using d uid) (elections d))"

text \<open>
  The function \<^verbatim>\<open>get_vote_counts\<close>. It is declared without \<^verbatim>\<open>SECURITY DEFINER\<close> (unlike
  \<^verbatim>\<open>has_role\<close> and \<^verbatim>\<open>handle_new_user\<close>), so its query runs as the caller and reads each
  table through its SELECT policy. The LEFT JOIN keeps a candidate without a matching vote
  as one row with a NULL vote; \<^verbatim>\<open>COUNT(v.id)\<close> counts the rows of a group whose vote is
  not NULL. Rows with equal counts come in the order of the groups (the engine promises
  none).
\<close>

record vote_count =
  candidate_id :: uuid
  candidate_name :: string
  vote_count :: nat

definition left_join :: "candidate list \<Rightarrow> vote list \<Rightarrow> (candidate \<times> vote option) list" where
  "left_join cs vs =
     concat (map (\<lambda>c. let ms = filter (\<lambda>v. c_id c = v_candidate_id v) vs
                       in if ms = [] then [(c, None)] else map (\<lambda>v. (c, Some v)) ms) cs)"

definition get_vote_counts :: "db \<Rightarrow> uuid option \<Rightarrow> uuid \<Rightarrow> vote_count list" where
  "get_vote_counts d uid election_uuid =
     (let joined = filter (\<lambda>(c, v). c_election_id c = election_uuid)
                     (left_join (filter (candidates_select_using d uid) (candidates d))
                                (filter (votes_select_using d uid) (votes d)));
          groups = remdups (map (\<lambda>(c, v). (c_id c, c_name c)) joined);
          counted = map (\<lambda>(i, n). \<lparr>candidate_id = i, candidate_name = n,
                          vote_count = length (filter (\<lambda>(c, v). c_id c = i \<and> c_name c = n \<and> v \<noteq> None) joined)\<rparr>)
                      groups
      in sort_key (\<lambda>r. - int (vote_count r)) counted)"

section \<open>The pages\<close>

text \<open>
  \<^verbatim>\<open>gen_random_uuid()\<close>, the default of every \<^verbatim>\<open>id\<close> column: a value that no row of
  the table has yet.
\<close>

definition gen_random_uuid :: "uuid list \<Rightarrow> uuid" where
  "gen_random_uuid used = Suc (fold max used 0)"

fun with_ids :: "uuid list \<Rightarrow> (uuid \<Rightarrow> 'a) list \<Rightarrow> 'a list" where
  "with_ids used [] = []"
| "with_ids used (f # fs) = (let i = gen_random_uuid used in f i # with_ids (i # used) fs)"

text \<open>
  What a handler shows: \<open>ToastErrorOf err\<close> is \<^verbatim>\<open>toast.error(error.message)\<close> for the
  error \<open>err\<close> of the storage engine.
\<close>

datatype toast = ToastError string | ToastErrorOf pg_error | ToastSuccess string

subsection \<open>VotePage\<close>

text \<open>
  \<^verbatim>\<open>handleSubmitVote\<close>, with the state it reads: the election of the route, the selected
  candidate (\<open>None\<close> is the empty selection), the signed-in user, whose session the
  request carries, and the title of the loaded election. The result of the audit insert
  is not looked at.
\<close>

definition handleSubmitVote ::
  "db \<Rightarrow> uuid \<Rightarrow> uuid option \<Rightarrow> uuid option \<Rightarrow> string option \<Rightarrow> toast \<times> db" where
  "handleSubmitVote d electionId selectedCandidate user election_title =
     (case selectedCandidate of
        None \<Rightarrow> (ToastError ''Please select a candidate'', d)
      | Some c \<Rightarrow>
          (case insert_vote d user
                  \<lparr>v_id = gen_random_uuid (map v_id (votes d)), v_election_id = electionId,
                   v_candidate_id = c, v_voter_id = user\<rparr> of
             Inl err \<Rightarrow> (ToastErrorOf err, d)
           | Inr d1 \<Rightarrow>
               (ToastSuccess ''Vote submitted successfully!'',
                commit d1 (insert_audit_log d1 user
                  \<lparr>a_id = gen_random_uuid (map a_id (audit_logs d1)), a_user_id = user,
                   a_action = ''vote_cast'',
                   a_details = (''election_id'', JUuid electionId) #
                     (case election_title of None \<Rightarrow> [] | Some t \<Rightarrow> [(''election_title'', JString t)])\<rparr>))))"


subsection \<open>Admin page\<close>

text \<open>
  \<^verbatim>\<open>String.prototype.trim\<close> on strings of 8-bit characters: the white space and line
  terminators below 256 are TAB, LF, VT, FF, CR, SP and NBSP.
\<close>

definition is_space :: "char \<Rightarrow> bool" where
  "is_space ch = (of_char ch \<in> {9, 10, 11, 12, 13, 32, 160 :: nat})"

definition trim :: "string \<Rightarrow> string" where
  "trim s = rev (dropWhile is_space (rev (dropWhile is_space s)))"

record candidate_form =
  cf_name :: string
  cf_description :: string

record election_form =
  title :: string
  description :: string
  status :: election_status
  isAnonymous :: bool
  startDate :: timestamptz
  endDate :: timestamptz
  candidate_forms :: "candidate_form list"

text \<open>
  \<^verbatim>\<open>.insert(row).select().single()\<close>: INSERT ... RETURNING, which also checks the SELECT
  policy on the new row, and gives the row back.
\<close>

definition insert_election_returning :: "db \<Rightarrow> uuid option \<Rightarrow> election \<Rightarrow> pg_error + election \<times> db" where
  "insert_election_returning d uid e =
     (if \<not> elections_select_using d uid e then Inl (insufficient_privilege ''elections'')
      else case insert_election d uid e of Inl err \<Rightarrow> Inl err | Inr d' \<Rightarrow> Inr (e, d'))"

text \<open>
  The local values of \<^verbatim>\<open>handleCreateElection\<close>: the candidates with a non-blank name,
  the row of the election insert (its id is the column's default), and the rows of the
  candidate insert, whose \<^verbatim>\<open>election_id\<close> is the id of the returned election. The date
  inputs are \<^verbatim>\<open>required\<close> fields of type \<^verbatim>\<open>datetime-local\<close>, so the form holds
  well-formed dates.
\<close>

definition validCandidates :: "election_form \<Rightarrow> candidate_form list" where
  "validCandidates form = filter (\<lambda>c. trim (cf_name c) \<noteq> []) (candidate_forms form)"

definition electionInsert :: "db \<Rightarrow> election_form \<Rightarrow> uuid option \<Rightarrow> election" where
  "electionInsert d form user =
     \<lparr>e_id = gen_random_uuid (map e_id (elections d)), e_title = title form,
      e_description = Some (description form), e_status = Some (status form),
      e_is_anonymous = Some (isAnonymous form), e_start_date = Some (startDate form),
      e_end_date = Some (endDate form), e_created_by = user\<rparr>"

definition candidatesData :: "db \<Rightarrow> election \<Rightarrow> election_form \<Rightarrow> candidate list" where
  "candidatesData d electionData form =
     with_ids (map c_id (candidates d))
       (map (\<lambda>c i. \<lparr>c_id = i, c_election_id = e_id electionData, c_name = cf_name c,
                    c_description = Some (cf_description c)\<rparr>) (validCandidates form))"

text \<open>
  \<^verbatim>\<open>handleCreateElection\<close>. Its three requests are three statements, not one
  transaction: \<open>env1\<close> and \<open>env2\<close> are the requests of other sessions that the engine
  serves between them. The result of the audit insert is not looked at.
\<close>

definition handleCreateElection ::
  "db \<Rightarrow> election_form \<Rightarrow> uuid option \<Rightarrow> (uuid option \<times> stmt) list \<Rightarrow> (uuid option \<times> stmt) list
     \<Rightarrow> toast \<times> db" where
  "handleCreateElection d form user env1 env2 =
     (if length (validCandidates form) < 2 then (ToastError ''Please add at least 2 candidates'', d)
      else
        (case insert_election_returning d user (electionInsert d form user) of
           Inl electionError \<Rightarrow> (ToastErrorOf electionError, d)
         | Inr (electionData, d1) \<Rightarrow>
             (let d2 = run d1 env1 in
              case insert_candidate_rows d2 user (candidatesData d2 electionData form) of
                Inl candidatesError \<Rightarrow> (ToastErrorOf candidatesError, d2)
              | Inr d3 \<Rightarrow>
                  (let d4 = run d3 env2 in
                   (ToastSuccess ''Election created successfully!'',
                    commit d4 (insert_audit_log d4 user
                      \<lparr>a_id = gen_random_uuid (map a_id (audit_logs d4)), a_user_id = user,
                       a_action = ''election_created'',
                       a_details = [(''election_id'', JUuid (e_id electionData)),
                                    (''title'', JString (title form))]\<rparr>))))))"

subsection \<open>ResultsPage\<close>

















section \<open>Notions for the statements\<close>





text \<open>The statements that write the elections table.\<close>

fun writes_elections :: "stmt \<Rightarrow> bool" where
  "writes_elections (InsertElection e) = True"
| "writes_elections (UpdateElection i e) = True"
| "writes_elections (DeleteElection i) = True"
| "writes_elections s = False"


section \<open>Example data\<close>

text \<open>
  A database with the admins 1 and 4 and the students 2 and 3, the active election 10
  with the candidates A (100) and B (101), and the closed election 20 with the candidate
  C (200); no votes yet.
\<close>

definition example_db :: db where
  "example_db =
     \<lparr>users = [1, 2, 3, 4],
      user_roles = [\<lparr>ur_id = 1, ur_user_id = 1, ur_role = Admin\<rparr>,
                    \<lparr>ur_id = 2, ur_user_id = 2, ur_role = Student\<rparr>,
                    \<lparr>ur_id = 3, ur_user_id = 3, ur_role = Student\<rparr>,
                    \<lparr>ur_id = 4, ur_user_id = 4, ur_role = Admin\<rparr>],
      elections = [\<lparr>e_id = 10, e_title = ''President'', e_description = None, e_status = Some Active,
                     e_is_anonymous = Some False, e_start_date = None, e_end_date = None, e_created_by = Some 1\<rparr>,
                   \<lparr>e_id = 20, e_title = ''Treasurer'', e_description = None, e_status = Some Closed,
                     e_is_anonymous = Some False, e_start_date = None, e_end_date = None, e_created_by = Some 1\<rparr>],
      candidates = [\<lparr>c_id = 100, c_election_id = 10, c_name = ''A'', c_description = None\<rparr>,
                    \<lparr>c_id = 101, c_election_id = 10, c_name = ''B'', c_description = None\<rparr>,
                    \<lparr>c_id = 200, c_election_id = 20, c_name = ''C'', c_description = None\<rparr>],
      votes = [], audit_logs = []\<rparr>"

text \<open>The same database after three votes in the election 10: A, A, B, by 2, 3 and 4.\<close>

definition example_voted :: db where
  "example_voted = example_db\<lparr>votes :=
     [\<lparr>v_id = 1, v_election_id = 10, v_candidate_id = 100, v_voter_id = Some 2\<rparr>,
      \<lparr>v_id = 2, v_election_id = 10, v_candidate_id = 100, v_voter_id = Some 3\<rparr>,
      \<lparr>v_id = 3, v_election_id = 10, v_candidate_id = 101, v_voter_id = Some 4\<rparr>]\<rparr>"

text \<open>A filled form of the admin page, with two candidates.\<close>

definition example_form :: election_form where
  "example_form =
     \<lparr>title = ''Secretary'', description = ''Term 2026'', status = Draft, isAnonymous = False,
      startDate = 1, endDate = 2,
      candidate_forms = [\<lparr>cf_name = ''Ada'', cf_description = ''first''\<rparr>,
                         \<lparr>cf_name = ''Bob'', cf_description = ''second''\<rparr>]\<rparr>"




section \<open>Generated ids\<close>


section \<open>Casting a vote: the insert policy\<close>

text \<open>
  Claim C10. For an authenticated caller \<open>p\<close>, the WITH CHECK of "Users can cast votes"
  holds exactly when the row's \<open>voter_id\<close> is \<open>p\<close>. It does not read the elections
  table: replacing that table by any other leaves the check as it was. So a row that
  names \<open>p\<close> as voter passes the check for every election row \<open>e\<close>, whatever its status,
  and the insert never fails on row-level security.
\<close>

theorem votes_insert_check_iff_voter_is_caller:
  "votes_insert_check d (Some p) v = (v_voter_id v = Some p)
   \<and> votes_insert_check (d\<lparr>elections := es\<rparr>) (Some p) v = votes_insert_check d (Some p) v
   \<and> votes_insert_check d (Some p)
       \<lparr>v_id = i, v_election_id = e_id e, v_candidate_id = c, v_voter_id = Some p\<rparr>
   \<and> insert_vote d (Some p) \<lparr>v_id = i, v_election_id = e_id e, v_candidate_id = c, v_voter_id = Some p\<rparr>
       \<noteq> Inl (insufficient_privilege ''votes'')"
  by (auto simp: votes_insert_check_def authenticated_def insert_vote_def)

section \<open>Listing elections\<close>

text \<open>
  Claim C5. A caller without the admin role (anonymous callers included) gets, for every
  filter \<open>q\<close> of the query, only elections whose status is active, never a draft or a
  closed one: the SELECT policy cuts the table before the filter applies. An admin who
  asks for everything gets the whole table.
\<close>

theorem non_admin_sees_only_active_elections:
  "(\<not> has_role d uid Admin \<longrightarrow>
      (\<forall>e \<in> set (select_elections d uid q).
         e_status e = Some Active \<and> e_status e \<noteq> Some Draft \<and> e_status e \<noteq> Some Closed))
   \<and> (has_role d (Some a) Admin \<longrightarrow> select_elections d (Some a) (\<lambda>e. True) = elections d)"
  by (auto simp: select_elections_def elections_select_using_def authenticated_def)

text \<open>
  In the example database the student 2 sees the active election only, the admin 1 sees
  both.
\<close>

theorem non_admin_sees_only_active_elections_witness:
  "\<not> has_role example_db (Some 2) Admin
   \<and> select_elections example_db (Some 2) (\<lambda>e. True) = [hd (elections example_db)]
   \<and> e_status (hd (elections example_db)) = Some Active
   \<and> has_role example_db (Some 1) Admin
   \<and> select_elections example_db (Some 1) (\<lambda>e. True) = elections example_db"
  using non_admin_sees_only_active_elections [of example_db "Some 2" "\<lambda>e. True" 1]
  by (simp add: example_db_def has_role_def select_elections_def elections_select_using_def authenticated_def)

section \<open>Creating an election\<close>




text \<open>
  Claim C6. A form with fewer than two candidates, or with fewer than two candidates
  whose trimmed name is not empty, is refused with the validation message before any
  request is sent: the database is as it was, with no new election and no new candidate.
\<close>

theorem fewer_than_two_candidates_rejected:
  "(length (candidate_forms form) < 2 \<longrightarrow>
      handleCreateElection d form user env1 env2 = (ToastError ''Please add at least 2 candidates'', d))
   \<and> (length (validCandidates form) < 2 \<longrightarrow>
      handleCreateElection d form user env1 env2 = (ToastError ''Please add at least 2 candidates'', d))"
proof -
  have few: "handleCreateElection d form user env1 env2 = (ToastError ''Please add at least 2 candidates'', d)"
    if "length (validCandidates form) < 2"
    using that by (simp add: handleCreateElection_def)
  have "length (validCandidates form) \<le> length (candidate_forms form)"
    by (simp add: validCandidates_def)
  then have "length (validCandidates form) < 2"
    if "length (candidate_forms form) < 2"
    using that by linarith
  with few show ?thesis by blast
qed

text \<open>
  The admin 1 submits one candidate, then one candidate and a blank one: both are refused.
\<close>

theorem fewer_than_two_candidates_rejected_witness:
  "length (candidate_forms (example_form\<lparr>candidate_forms := [\<lparr>cf_name = ''Ada'', cf_description = ''first''\<rparr>]\<rparr>)) < 2
   \<and> handleCreateElection example_db (example_form\<lparr>candidate_forms := [\<lparr>cf_name = ''Ada'', cf_description = ''first''\<rparr>]\<rparr>)
        (Some 1) [] [] = (ToastError ''Please add at least 2 candidates'', example_db)
   \<and> length (validCandidates (example_form\<lparr>candidate_forms :=
           [\<lparr>cf_name = ''Ada'', cf_description = ''first''\<rparr>, \<lparr>cf_name = ''  '', cf_description = ''blank''\<rparr>]\<rparr>)) < 2
   \<and> handleCreateElection example_db (example_form\<lparr>candidate_forms :=
           [\<lparr>cf_name = ''Ada'', cf_description = ''first''\<rparr>, \<lparr>cf_name = ''  '', cf_description = ''blank''\<rparr>]\<rparr>)
        (Some 1) [] [] = (ToastError ''Please add at least 2 candidates'', example_db)"
  using fewer_than_two_candidates_rejected [of "example_form\<lparr>candidate_forms := [\<lparr>cf_name = ''Ada'', cf_description = ''first''\<rparr>]\<rparr>" example_db "Some 1" "[]" "[]"]
    fewer_than_two_candidates_rejected [of "example_form\<lparr>candidate_forms :=
           [\<lparr>cf_name = ''Ada'', cf_description = ''first''\<rparr>, \<lparr>cf_name = ''  '', cf_description = ''blank''\<rparr>]\<rparr>" example_db "Some 1" "[]" "[]"]
  by (simp add: validCandidates_def trim_def is_space_def)

section \<open>Votes\<close>

text \<open>Writing the audit log leaves the votes as they are.\<close>

lemma votes_commit_audit: "votes (commit d (insert_audit_log d uid a)) = votes d"
  by (simp add: commit_def insert_audit_log_def)

text \<open>What a successful insert of a vote has checked.\<close>

lemma insert_vote_Inr:
  "insert_vote d uid v = Inr d' \<Longrightarrow>
     d' = d\<lparr>votes := votes d @ [v]\<rparr> \<and> uid \<noteq> None \<and> v_voter_id v = uid
     \<and> v_election_id v \<in> e_id ` set (elections d)
     \<and> v_candidate_id v \<in> c_id ` set (candidates d)
     \<and> fk_user d uid
     \<and> \<not> (\<exists>w \<in> set (votes d). v_election_id w = v_election_id v \<and> v_voter_id w = v_voter_id v)"
  by (auto simp: insert_vote_def votes_insert_check_def authenticated_def split: if_splits)

text \<open>
  Claim C4, as stated, fails: in the example database the candidate 200 belongs to the
  election 20, and the student 2 votes for it in the election 10. The vote is stored.
\<close>

theorem vote_for_foreign_candidate_counterexample:
  "c_id (candidates example_db ! 2) = 200 \<and> c_election_id (candidates example_db ! 2) = 20
   \<and> handleSubmitVote example_db 10 (Some 200) (Some 2) (Some ''President'')
       = (ToastSuccess ''Vote submitted successfully!'',
          example_db\<lparr>votes := [\<lparr>v_id = 1, v_election_id = 10, v_candidate_id = 200, v_voter_id = Some 2\<rparr>],
            audit_logs := [\<lparr>a_id = 1, a_user_id = Some 2, a_action = ''vote_cast'',
              a_details = [(''election_id'', JUuid 10), (''election_title'', JString ''President'')]\<rparr>]\<rparr>)"
  by (simp add: example_db_def handleSubmitVote_def insert_vote_def votes_insert_check_def
      authenticated_def fk_user_def gen_random_uuid_def commit_def insert_audit_log_def
      audit_logs_insert_check_def)

text \<open>
  Claim C4, amended. An insert into votes succeeds only if the election exists, the
  candidate exists (in whatever election), and the caller is authenticated, is a user and
  is the row's voter. \<^verbatim>\<open>handleSubmitVote\<close> changes the votes only by appending the one
  row of such an insert. That the candidate belongs to the election is not checked.
\<close>

theorem vote_recorded_only_if_references_exist:
  "(insert_vote d uid v = Inr d' \<longrightarrow>
      v_election_id v \<in> e_id ` set (elections d)
      \<and> v_candidate_id v \<in> c_id ` set (candidates d)
      \<and> uid \<noteq> None \<and> v_voter_id v = uid \<and> fk_user d uid)
   \<and> (votes (snd (handleSubmitVote d e c u t)) \<noteq> votes d \<longrightarrow>
      (\<exists>cand p. c = Some cand \<and> u = Some p
         \<and> e \<in> e_id ` set (elections d)
         \<and> cand \<in> c_id ` set (candidates d)
         \<and> p \<in> set (users d)
         \<and> votes (snd (handleSubmitVote d e c u t)) =
             votes d @ [\<lparr>v_id = gen_random_uuid (map v_id (votes d)), v_election_id = e,
                          v_candidate_id = cand, v_voter_id = Some p\<rparr>]))"
  (is "?storage \<and> (?changed \<longrightarrow> ?recorded)")
proof (rule conjI)
  show ?storage
    using insert_vote_Inr [of d uid v d'] by blast
next
  show "?changed \<longrightarrow> ?recorded"
  proof (rule impI)
    assume ch: ?changed
    then obtain cand where c: "c = Some cand"
      by (cases c) (auto simp: handleSubmitVote_def)
    let ?v = "\<lparr>v_id = gen_random_uuid (map v_id (votes d)), v_election_id = e,
                v_candidate_id = cand, v_voter_id = u\<rparr>"
    from ch c obtain d1 where ins: "insert_vote d u ?v = Inr d1"
      by (cases "insert_vote d u ?v") (auto simp: handleSubmitVote_def)
    note f = insert_vote_Inr [OF ins]
    from f obtain p where u: "u = Some p" by auto
    have "votes (snd (handleSubmitVote d e c u t)) = votes d1"
      using c ins by (simp add: handleSubmitVote_def votes_commit_audit)
    with f u c show ?recorded
      by (auto simp: fk_user_def)
  qed
qed

text \<open>The student 2 votes for the candidate 100 of the election 10.\<close>

theorem vote_recorded_only_if_references_exist_witness:
  "insert_vote example_db (Some 2) \<lparr>v_id = 1, v_election_id = 10, v_candidate_id = 100, v_voter_id = Some 2\<rparr>
     = Inr (example_db\<lparr>votes := [\<lparr>v_id = 1, v_election_id = 10, v_candidate_id = 100, v_voter_id = Some 2\<rparr>]\<rparr>)
   \<and> 10 \<in> e_id ` set (elections example_db) \<and> 100 \<in> c_id ` set (candidates example_db)
   \<and> fk_user example_db (Some 2)
   \<and> votes (snd (handleSubmitVote example_db 10 (Some 100) (Some 2) None)) \<noteq> votes example_db
   \<and> votes (snd (handleSubmitVote example_db 10 (Some 100) (Some 2) None))
       = [\<lparr>v_id = 1, v_election_id = 10, v_candidate_id = 100, v_voter_id = Some 2\<rparr>]"
  using vote_recorded_only_if_references_exist [of example_db "Some 2"
      "\<lparr>v_id = 1, v_election_id = 10, v_candidate_id = 100, v_voter_id = Some 2\<rparr>"
      "example_db\<lparr>votes := [\<lparr>v_id = 1, v_election_id = 10, v_candidate_id = 100, v_voter_id = Some 2\<rparr>]\<rparr>"
      10 "Some 100" "Some 2" None]
  by (simp add: example_db_def handleSubmitVote_def insert_vote_def votes_insert_check_def
      authenticated_def fk_user_def gen_random_uuid_def commit_def insert_audit_log_def
      audit_logs_insert_check_def)

text \<open>Inserting candidates leaves the votes as they are.\<close>

lemma votes_insert_candidate_row:
  "insert_candidate_row d uid c = Inr d' \<Longrightarrow> votes d' = votes d"
  by (auto simp: insert_candidate_row_def split: if_splits)

lemma votes_insert_candidate_rows:
  "insert_candidate_rows d uid cs = Inr d' \<Longrightarrow> votes d' = votes d"
proof (induction cs arbitrary: d)
  case Nil
  then show ?case by simp
next
  case (Cons c cs)
  then show ?case
    by (auto split: sum.splits dest: votes_insert_candidate_row)
qed

text \<open>The votes after one statement, whether it failed or not.\<close>

lemma votes_after_exec:
  "votes (commit d (exec d uid s)) =
     (case s of
        InsertVote w \<Rightarrow> (case insert_vote d uid w of Inl err \<Rightarrow> votes d | Inr d' \<Rightarrow> votes d @ [w])
      | DeleteElection i \<Rightarrow>
          (if \<exists>e \<in> set (elections d). e_id e = i \<and> elections_delete_using d uid e
           then filter (\<lambda>v. v_election_id v \<noteq> i \<and>
                  v_candidate_id v \<notin> c_id ` {c \<in> set (candidates d). c_election_id c = i}) (votes d)
           else votes d)
      | DeleteCandidate i \<Rightarrow>
          (if \<exists>c \<in> set (candidates d). c_id c = i \<and> candidates_all_using d uid c
           then filter (\<lambda>v. v_candidate_id v \<noteq> i) (votes d) else votes d)
      | _ \<Rightarrow> votes d)"
proof (cases s)
  case (InsertVote w)
  then show ?thesis
    by (auto simp: commit_def split: sum.splits dest: insert_vote_Inr)
next
  case (InsertCandidates cs)
  then show ?thesis
    by (auto simp: commit_def split: sum.splits dest: votes_insert_candidate_rows)
next
  case (UpdateVotes q f)
  then show ?thesis
    by (simp add: commit_def update_votes_def votes_update_using_def)
next
  case (DeleteVotes q)
  then show ?thesis
    by (simp add: commit_def delete_votes_def votes_delete_using_def)
qed (auto simp: commit_def insert_role_def delete_role_def insert_election_def update_election_def
      delete_election_def update_candidate_def delete_candidate_def insert_audit_log_def)

text \<open>
  Claim C8, as stated, fails: the admin 1 deletes the candidate 100, and the two votes for
  that candidate go with it, while their election 10 stays.
\<close>

theorem delete_candidate_removes_votes_counterexample:
  "votes example_voted =
     [\<lparr>v_id = 1, v_election_id = 10, v_candidate_id = 100, v_voter_id = Some 2\<rparr>,
      \<lparr>v_id = 2, v_election_id = 10, v_candidate_id = 100, v_voter_id = Some 3\<rparr>,
      \<lparr>v_id = 3, v_election_id = 10, v_candidate_id = 101, v_voter_id = Some 4\<rparr>]
   \<and> exec example_voted (Some 1) (DeleteCandidate 100) =
       Inr (example_voted\<lparr>
         candidates := [\<lparr>c_id = 101, c_election_id = 10, c_name = ''B'', c_description = None\<rparr>,
                        \<lparr>c_id = 200, c_election_id = 20, c_name = ''C'', c_description = None\<rparr>],
         votes := [\<lparr>v_id = 3, v_election_id = 10, v_candidate_id = 101, v_voter_id = Some 4\<rparr>]\<rparr>)
   \<and> map e_id (elections example_voted) = [10, 20]"
  by (simp add: example_voted_def example_db_def delete_candidate_def candidates_all_using_def
      authenticated_def has_role_def)

text \<open>
  Claim C8, amended. UPDATE and DELETE on votes change nothing, for every caller, filter
  and new contents. Under every statement \<open>s\<close> of every caller, a vote row \<open>v\<close> either
  stays in the table as it is, or \<open>s\<close> is an admin's deletion of an election that \<open>v\<close> or
  \<open>v\<close>'s candidate belongs to, or an admin's deletion of \<open>v\<close>'s candidate. Every row
  \<open>w\<close> of the table afterwards was there before or is the row that \<open>s\<close> inserts.
\<close>

theorem votes_change_only_by_insert_or_cascade:
  "votes (commit d (exec d uid (UpdateVotes q f))) = votes d
   \<and> votes (commit d (exec d uid (DeleteVotes q))) = votes d
   \<and> (v \<in> set (votes d) \<longrightarrow>
        v \<in> set (votes (commit d (exec d uid s)))
        \<or> (\<exists>i. s = DeleteElection i \<and> has_role d uid Admin \<and> i \<in> e_id ` set (elections d)
              \<and> (v_election_id v = i
                  \<or> v_candidate_id v \<in> c_id ` {c \<in> set (candidates d). c_election_id c = i}))
        \<or> (s = DeleteCandidate (v_candidate_id v) \<and> has_role d uid Admin
              \<and> v_candidate_id v \<in> c_id ` set (candidates d)))
   \<and> (w \<in> set (votes (commit d (exec d uid s))) \<longrightarrow> w \<in> set (votes d) \<or> s = InsertVote w)"
  (is "?upd \<and> ?del \<and> ?kept \<and> ?old")
proof (intro conjI)
  show ?upd using votes_after_exec [of d uid "UpdateVotes q f"] by simp
  show ?del using votes_after_exec [of d uid "DeleteVotes q"] by simp
  show ?kept
    using votes_after_exec [of d uid s]
    by (cases s)
       (auto simp: elections_delete_using_def candidates_all_using_def
             split: sum.splits if_splits)
  show ?old
    using votes_after_exec [of d uid s]
    by (cases s) (auto split: sum.splits if_splits)
qed

text \<open>
  In the example with three votes: deleting the candidate 101 keeps the first vote,
  deleting the election 10 removes it, deleting the candidate 100 keeps the last vote.
\<close>

theorem votes_change_only_by_insert_or_cascade_witness:
  "hd (votes example_voted) \<in> set (votes example_voted)
   \<and> hd (votes example_voted) \<in> set (votes (commit example_voted (exec example_voted (Some 1) (DeleteCandidate 101))))
   \<and> hd (votes example_voted) \<notin> set (votes (commit example_voted (exec example_voted (Some 1) (DeleteElection 10))))
   \<and> has_role example_voted (Some 1) Admin
   \<and> v_election_id (hd (votes example_voted)) = 10
   \<and> last (votes example_voted) \<in> set (votes (commit example_voted (exec example_voted (Some 1) (DeleteCandidate 100))))"
  using votes_change_only_by_insert_or_cascade [of example_voted "Some 1" "\<lambda>v. True" id
      "hd (votes example_voted)" "DeleteCandidate 101" "last (votes example_voted)"]
    votes_change_only_by_insert_or_cascade [of example_voted "Some 1" "\<lambda>v. True" id
      "hd (votes example_voted)" "DeleteElection 10" "last (votes example_voted)"]
  by (simp add: example_voted_def example_db_def delete_candidate_def delete_election_def
      candidates_all_using_def elections_delete_using_def authenticated_def has_role_def commit_def)

section \<open>Election creation is not a transaction\<close>

text \<open>Statements that do not write the elections table leave it as it is.\<close>

lemma elections_insert_candidate_rows:
  "insert_candidate_rows d uid cs = Inr d' \<Longrightarrow> elections d' = elections d"
proof (induction cs arbitrary: d)
  case Nil
  then show ?case by simp
next
  case (Cons c cs)
  then show ?case
    by (auto simp: insert_candidate_row_def split: sum.splits if_splits)
qed

lemma elections_after_exec:
  "\<not> writes_elections s \<Longrightarrow> elections (commit d (exec d uid s)) = elections d"
proof (cases s)
  case (InsertCandidates cs)
  then show ?thesis
    by (auto simp: commit_def split: sum.splits dest: elections_insert_candidate_rows)
qed (auto simp: commit_def insert_role_def delete_role_def update_candidate_def delete_candidate_def
      insert_vote_def update_votes_def delete_votes_def insert_audit_log_def)

lemma elections_after_run:
  "list_all (\<lambda>(uid, s). \<not> writes_elections s) env \<Longrightarrow> elections (run d env) = elections d"
  by (induction d env rule: run.induct) (auto simp: elections_after_exec)

text \<open>A successful insert with RETURNING appends the row and gives it back.\<close>

lemma insert_election_returning_Inr:
  "insert_election_returning d uid e = Inr (e', d1) \<Longrightarrow> e' = e \<and> d1 = d\<lparr>elections := elections d @ [e]\<rparr>"
  by (auto simp: insert_election_returning_def insert_election_def split: if_splits sum.splits)

text \<open>
  Claim C3, as stated, fails: the admin 1 submits a form with two candidates; after the
  election insert and before the candidate insert, the admin 4 removes the admin role of
  1 (role row 1). The candidate insert is then refused by row-level security, the handler
  shows that error, and the election 21 stays persisted with no candidate.
\<close>

theorem election_without_candidates_counterexample:
  "length (validCandidates example_form) = 2
   \<and> fst (handleCreateElection example_db example_form (Some 1) [(Some 4, DeleteRole 1)] [])
       = ToastErrorOf (insufficient_privilege ''candidates'')
   \<and> map e_id (elections (snd (handleCreateElection example_db example_form (Some 1) [(Some 4, DeleteRole 1)] [])))
       = [10, 20, 21]
   \<and> filter (\<lambda>c. c_election_id c = 21)
        (candidates (snd (handleCreateElection example_db example_form (Some 1) [(Some 4, DeleteRole 1)] [])))
       = []"
  by (simp add: example_db_def example_form_def validCandidates_def trim_def is_space_def
      handleCreateElection_def insert_election_returning_def insert_election_def
      elections_select_using_def elections_insert_check_def electionInsert_def candidatesData_def
      authenticated_def has_role_def fk_user_def gen_random_uuid_def commit_def delete_role_def
      user_roles_all_using_def insert_candidate_row_def candidates_all_using_def Let_def)

text \<open>
  Claim C3, amended. When the election insert succeeded and the candidate insert fails,
  the handler shows that one error and undoes nothing: the database is left as the
  election insert and the requests of other sessions made it. The election row was
  appended by the first request, and it is still there unless another session wrote the
  elections table in between.
\<close>

theorem failed_candidate_insert_is_not_rolled_back:
  "2 \<le> length (validCandidates form) \<Longrightarrow>
   insert_election_returning d user (electionInsert d form user) = Inr (electionData, d1) \<Longrightarrow>
   insert_candidate_rows (run d1 env1) user (candidatesData (run d1 env1) electionData form) = Inl err \<Longrightarrow>
     handleCreateElection d form user env1 env2 = (ToastErrorOf err, run d1 env1)
     \<and> d1 = d\<lparr>elections := elections d @ [electionData]\<rparr>
     \<and> (list_all (\<lambda>(uid, s). \<not> writes_elections s) env1 \<longrightarrow>
          elections (run d1 env1) = elections d @ [electionData])"
proof (intro conjI impI)
  assume v: "2 \<le> length (validCandidates form)"
    and e: "insert_election_returning d user (electionInsert d form user) = Inr (electionData, d1)"
    and c: "insert_candidate_rows (run d1 env1) user (candidatesData (run d1 env1) electionData form) = Inl err"
  show "handleCreateElection d form user env1 env2 = (ToastErrorOf err, run d1 env1)"
    using v e c by (simp add: handleCreateElection_def Let_def)
  show d1: "d1 = d\<lparr>elections := elections d @ [electionData]\<rparr>"
    using insert_election_returning_Inr [OF e] by simp
  show "elections (run d1 env1) = elections d @ [electionData]"
    if "list_all (\<lambda>(uid, s). \<not> writes_elections s) env1"
    using elections_after_run [OF that, of d1] d1 by simp
qed

text \<open>The run of the counterexample, step by step.\<close>

theorem failed_candidate_insert_is_not_rolled_back_witness:
  "2 \<le> length (validCandidates example_form)
   \<and> insert_election_returning example_db (Some 1) (electionInsert example_db example_form (Some 1))
       = Inr (electionInsert example_db example_form (Some 1),
              example_db\<lparr>elections := elections example_db @ [electionInsert example_db example_form (Some 1)]\<rparr>)
   \<and> insert_candidate_rows
        (run (example_db\<lparr>elections := elections example_db @ [electionInsert example_db example_form (Some 1)]\<rparr>)
           [(Some 4, DeleteRole 1)])
        (Some 1)
        (candidatesData
           (run (example_db\<lparr>elections := elections example_db @ [electionInsert example_db example_form (Some 1)]\<rparr>)
              [(Some 4, DeleteRole 1)])
           (electionInsert example_db example_form (Some 1)) example_form)
       = Inl (insufficient_privilege ''candidates'')
   \<and> list_all (\<lambda>(uid, s). \<not> writes_elections s) [(Some 4, DeleteRole 1)]
   \<and> handleCreateElection example_db example_form (Some 1) [(Some 4, DeleteRole 1)] []
       = (ToastErrorOf (insufficient_privilege ''candidates''),
          run (example_db\<lparr>elections := elections example_db @ [electionInsert example_db example_form (Some 1)]\<rparr>)
            [(Some 4, DeleteRole 1)])
   \<and> elections (run (example_db\<lparr>elections := elections example_db @ [electionInsert example_db example_form (Some 1)]\<rparr>)
            [(Some 4, DeleteRole 1)])
       = elections example_db @ [electionInsert example_db example_form (Some 1)]"
proof -
  let ?e = "electionInsert example_db example_form (Some 1)"
  let ?d1 = "example_db\<lparr>elections := elections example_db @ [?e]\<rparr>"
  let ?env = "[(Some 4, DeleteRole 1)]"
  have v: "2 \<le> length (validCandidates example_form)"
    by (simp add: example_form_def validCandidates_def trim_def is_space_def)
  have e: "insert_election_returning example_db (Some 1) ?e = Inr (?e, ?d1)"
    by (simp add: example_db_def example_form_def insert_election_returning_def insert_election_def
      elections_select_using_def elections_insert_check_def electionInsert_def
      authenticated_def has_role_def fk_user_def gen_random_uuid_def)
  have c: "insert_candidate_rows (run ?d1 ?env) (Some 1) (candidatesData (run ?d1 ?env) ?e example_form)
             = Inl (insufficient_privilege ''candidates'')"
    by (simp add: example_db_def example_form_def validCandidates_def trim_def is_space_def
      candidatesData_def authenticated_def has_role_def commit_def delete_role_def
      user_roles_all_using_def insert_candidate_row_def candidates_all_using_def Let_def)
  have w: "list_all (\<lambda>(uid, s). \<not> writes_elections s) ?env" by simp
  show ?thesis
    using failed_candidate_insert_is_not_rolled_back [OF v e c, of "[]"] v e c w by simp
qed

section \<open>One vote per election and voter\<close>






















section \<open>The tally\<close>

text \<open>
  The LEFT JOIN row by row: each candidate contributes its matching votes, or one row
  with a NULL vote.
\<close>

lemma left_join_Cons:
  "left_join (c # cs) vs =
     (if filter (\<lambda>v. c_id c = v_candidate_id v) vs = [] then [(c, None)]
      else map (\<lambda>v. (c, Some v)) (filter (\<lambda>v. c_id c = v_candidate_id v) vs)) @ left_join cs vs"
  by (simp add: left_join_def Let_def)

lemma left_join_Nil: "left_join [] vs = []"
  by (simp add: left_join_def)

lemma filter_left_join:
  "filter (\<lambda>(c, v). P c) (left_join cs vs) = left_join (filter P cs) vs"
proof (induction cs)
  case Nil
  then show ?case by (simp add: left_join_Nil)
next
  case (Cons c cs)
  then show ?case
    by (cases "P c") (simp_all add: left_join_Cons filter_empty_conv o_def)
qed

lemma fst_left_join: "fst ` set (left_join cs vs) = set cs"
proof (induction cs)
  case Nil
  then show ?case by (simp add: left_join_Nil)
next
  case (Cons c cs)
  let ?ms = "filter (\<lambda>v. c_id c = v_candidate_id v) vs"
  have "fst ` set (if ?ms = [] then [(c, None)] else map (\<lambda>v. (c, Some v)) ?ms) = {c}"
  proof (cases "?ms = []")
    case True
    then show ?thesis by simp
  next
    case False
    then obtain x where "x \<in> set ?ms" by (cases ?ms) auto
    then have "(\<lambda>v. c) ` set ?ms = {c}" by auto
    with False show ?thesis by (simp add: image_image)
  qed
  with Cons show ?case
    by (simp only: left_join_Cons set_append image_Un) simp
qed

text \<open>
  With distinct keys the groups of the joined rows are the candidates, in their order,
  and the count of a group is the number of votes that name the candidate.
\<close>

lemma remdups_replicate_append:
  "0 < n \<Longrightarrow> k \<notin> set ys \<Longrightarrow> remdups (replicate n k @ ys) = k # remdups ys"
proof (induction n)
  case 0
  then show ?case by simp
next
  case (Suc n)
  then show ?case by (cases n) auto
qed

lemma groups_left_join:
  assumes "distinct (map f cs)"
  shows "remdups (map (\<lambda>(c, v). f c) (left_join cs vs)) = map f cs"
  using assms
proof (induction cs)
  case Nil
  then show ?case by (simp add: left_join_Nil)
next
  case (Cons c cs)
  let ?ms = "filter (\<lambda>v. c_id c = v_candidate_id v) vs"
  let ?block = "if ?ms = [] then [(c, None)] else map (\<lambda>v. (c, Some v)) ?ms"
  have block: "map (\<lambda>(c, v). f c) ?block = replicate (length ?block) (f c)"
    by (auto simp: map_replicate_const o_def)
  have pos: "0 < length ?block" by auto
  have "set (map (\<lambda>(c, v). f c) (left_join cs vs)) = f ` set cs"
    using fst_left_join [of cs vs] by (auto simp: image_iff split_def) force+
  with Cons.prems have notin: "f c \<notin> set (map (\<lambda>(c, v). f c) (left_join cs vs))" by auto
  have "remdups (map (\<lambda>(c, v). f c) (left_join (c # cs) vs))
      = remdups (replicate (length ?block) (f c) @ map (\<lambda>(c, v). f c) (left_join cs vs))"
    unfolding left_join_Cons map_append block ..
  also have "\<dots> = f c # remdups (map (\<lambda>(c, v). f c) (left_join cs vs))"
    using pos notin by (rule remdups_replicate_append)
  finally show ?case using Cons by simp
qed

lemma count_left_join:
  "length (filter (\<lambda>(c', v). c_id c' = i \<and> c_name c' = n \<and> v \<noteq> None) (left_join cs vs)) =
     sum_list (map (\<lambda>c'. if c_id c' = i \<and> c_name c' = n
                            then length (filter (\<lambda>v. c_id c' = v_candidate_id v) vs) else 0) cs)"
proof (induction cs)
  case Nil
  then show ?case by (simp add: left_join_Nil)
next
  case (Cons c cs)
  let ?ms = "filter (\<lambda>v. c_id c = v_candidate_id v) vs"
  let ?P = "\<lambda>(c', v). c_id c' = i \<and> c_name c' = n \<and> v \<noteq> (None :: vote option)"
  have "length (filter ?P (if ?ms = [] then [(c, None)] else map (\<lambda>v. (c, Some v)) ?ms)) =
      (if c_id c = i \<and> c_name c = n then length ?ms else 0)"
    by (cases "?ms = []") (auto simp: o_def)
  with Cons show ?case
    by (simp only: left_join_Cons filter_append length_append list.map sum_list.Cons)
qed

lemma sum_list_single:
  "distinct (map c_id cs) \<Longrightarrow> c \<in> set cs \<Longrightarrow>
     sum_list (map (\<lambda>c'. if c_id c' = c_id c \<and> c_name c' = c_name c then g c' else 0) cs) = (g c :: nat)"
proof (induction cs)
  case Nil
  then show ?case by simp
next
  case (Cons a cs)
  show ?case
  proof (cases "a = c")
    case True
    with Cons.prems have "c_id c \<notin> c_id ` set cs" by simp
    then have "\<forall>c' \<in> set cs. c_id c' \<noteq> c_id c" by (metis imageI)
    then have "sum_list (map (\<lambda>c'. if c_id c' = c_id c \<and> c_name c' = c_name c then g c' else 0) cs) = 0"
      by (induction cs) auto
    with True show ?thesis by simp
  next
    case False
    with Cons.prems have c: "c \<in> set cs" by simp
    with Cons.prems have "c_id a \<noteq> c_id c" by auto
    with Cons.IH c Cons.prems show ?thesis by simp
  qed
qed

text \<open>
  What \<^verbatim>\<open>get_vote_counts\<close> computes when candidate ids are distinct (they are a primary
  key): the candidates of the election that the caller sees, each with the number of
  votes for it that the caller sees, sorted by descending count.
\<close>

lemma get_vote_counts_eq:
  assumes "distinct (map c_id (candidates d))"
  shows "get_vote_counts d uid e =
     sort_key (\<lambda>r. - int (vote_count r))
       (map (\<lambda>c. \<lparr>candidate_id = c_id c, candidate_name = c_name c,
                   vote_count = length (filter (\<lambda>v. v_candidate_id v = c_id c)
                                  (filter (votes_select_using d uid) (votes d)))\<rparr>)
          (filter (\<lambda>c. c_election_id c = e)
             (filter (candidates_select_using d uid) (candidates d))))"
proof -
  define cs where "cs = filter (candidates_select_using d uid) (candidates d)"
  define vs where "vs = filter (votes_select_using d uid) (votes d)"
  let ?cs = "filter (\<lambda>c. c_election_id c = e) cs"
  let ?key = "\<lambda>c. (c_id c, c_name c)"
  have "distinct (map c_id cs)" unfolding cs_def using assms by (rule distinct_map_filter)
  then have d: "distinct (map c_id ?cs)" by (rule distinct_map_filter)
  then have dk: "distinct (map ?key ?cs)"
    by (simp add: distinct_map inj_on_def)
  have joined: "filter (\<lambda>(c, v). c_election_id c = e) (left_join cs vs) = left_join ?cs vs"
    by (rule filter_left_join)
  have groups: "remdups (map (\<lambda>(c, v). (c_id c, c_name c)) (left_join ?cs vs)) = map ?key ?cs"
    using groups_left_join [OF dk] .
  have counts: "length (filter (\<lambda>(c', v). c_id c' = c_id c \<and> c_name c' = c_name c \<and> v \<noteq> None) (left_join ?cs vs))
        = length (filter (\<lambda>v. v_candidate_id v = c_id c) vs)" if "c \<in> set ?cs" for c
  proof -
    have "length (filter (\<lambda>(c', v). c_id c' = c_id c \<and> c_name c' = c_name c \<and> v \<noteq> None) (left_join ?cs vs))
        = sum_list (map (\<lambda>c'. if c_id c' = c_id c \<and> c_name c' = c_name c
                            then length (filter (\<lambda>v. c_id c' = v_candidate_id v) vs) else 0) ?cs)"
      by (rule count_left_join)
    also have "\<dots> = length (filter (\<lambda>v. c_id c = v_candidate_id v) vs)"
      by (rule sum_list_single [OF d that])
    also have "(\<lambda>v. c_id c = v_candidate_id v) = (\<lambda>v. v_candidate_id v = c_id c)" by auto
    finally show ?thesis .
  qed
  have "map (\<lambda>(i, n). \<lparr>candidate_id = i, candidate_name = n,
            vote_count = length (filter (\<lambda>(c, v). c_id c = i \<and> c_name c = n \<and> v \<noteq> None) (left_join ?cs vs))\<rparr>)
          (map ?key ?cs)
      = map (\<lambda>c. \<lparr>candidate_id = c_id c, candidate_name = c_name c,
                   vote_count = length (filter (\<lambda>v. v_candidate_id v = c_id c) vs)\<rparr>) ?cs"
    unfolding map_map by (rule map_cong [OF refl]) (simp add: counts del: not_None_eq)
  then show ?thesis
    unfolding get_vote_counts_def Let_def cs_def [symmetric] vs_def [symmetric] joined groups
    by (rule arg_cong)
qed

text \<open>
  For every authenticated caller the result is in descending order of the counts and has
  one row for each candidate of the election, a candidate without votes included; a
  count is the number of votes for the candidate that the SELECT policy of votes shows
  the caller. For an admin these are all the votes for the candidate.
\<close>

lemma get_vote_counts_sorted:
  "sorted (map (\<lambda>r. - int (vote_count r)) (get_vote_counts d uid e))"
  by (simp add: get_vote_counts_def Let_def)

lemma get_vote_counts_rows:
  assumes "distinct (map c_id (candidates d))" "authenticated uid"
  shows "mset (map (\<lambda>r. (candidate_id r, candidate_name r)) (get_vote_counts d uid e))
           = mset (map (\<lambda>c. (c_id c, c_name c)) (filter (\<lambda>c. c_election_id c = e) (candidates d)))"
    and "\<forall>r \<in> set (get_vote_counts d uid e).
           vote_count r = length (filter (\<lambda>v. v_candidate_id v = candidate_id r \<and> votes_select_using d uid v) (votes d))"
proof -
  have cs: "filter (candidates_select_using d uid) (candidates d) = candidates d"
    using assms(2) by (simp add: candidates_select_using_def)
  note eq = get_vote_counts_eq [OF assms(1), of uid e, unfolded cs]
  show "mset (map (\<lambda>r. (candidate_id r, candidate_name r)) (get_vote_counts d uid e))
           = mset (map (\<lambda>c. (c_id c, c_name c)) (filter (\<lambda>c. c_election_id c = e) (candidates d)))"
    unfolding eq by (simp add: multiset.map_comp o_def)
  show "\<forall>r \<in> set (get_vote_counts d uid e).
           vote_count r = length (filter (\<lambda>v. v_candidate_id v = candidate_id r \<and> votes_select_using d uid v) (votes d))"
    unfolding eq by (auto simp: conj_commute)
qed

lemma get_vote_counts_admin:
  assumes "distinct (map c_id (candidates d))" "has_role d (Some a) Admin"
  shows "\<forall>r \<in> set (get_vote_counts d (Some a) e).
           vote_count r = length (filter (\<lambda>v. v_candidate_id v = candidate_id r) (votes d))"
proof -
  have "votes_select_using d (Some a) v" for v
    using assms(2) by (simp add: votes_select_using_def authenticated_def)
  with get_vote_counts_rows(2) [OF assms(1), of "Some a" e] show ?thesis
    by (simp add: authenticated_def)
qed

text \<open>
  The candidate ids stay distinct under every statement, so the above holds in every
  state reached from one with distinct candidate ids.
\<close>

lemma distinct_map_replace:
  assumes "distinct (map f xs)" "f y = i \<or> f y \<notin> f ` set xs"
  shows "distinct (map f (map (\<lambda>x. if f x = i then y else x) xs))"
proof -
  define g where "g = (\<lambda>x. if f x = i then y else x)"
  have "distinct (map f (map g xs))"
    using assms
  proof (induction xs)
    case Nil
    then show ?case by simp
  next
    case (Cons x xs)
    have IH: "distinct (map f (map g xs))"
      using Cons by auto
    have notin: "f (g x) \<notin> set (map f (map g xs))"
    proof
      assume "f (g x) \<in> set (map f (map g xs))"
      then obtain x' where x': "x' \<in> set xs" "f (g x) = f (g x')" by auto
      from Cons.prems(1) x'(1) have ne: "f x \<noteq> f x'" by (auto simp: image_iff)
      show False
      proof (cases "f x = i")
        case True
        with ne have "f x' \<noteq> i" by simp
        with True x' have fy: "f y = f x'" by (simp add: g_def)
        with Cons.prems(2) x'(1) have "f y = i" by (auto simp: image_iff)
        with fy True ne show False by simp
      next
        case False
        show False
        proof (cases "f x' = i")
          case True
          with False x' have fy: "f x = f y" by (simp add: g_def)
          with Cons.prems(2) False show False by (auto simp: image_iff)
        next
          case False
          with \<open>f x \<noteq> i\<close> x' ne show False by (simp add: g_def)
        qed
      qed
    qed
    from IH notin show ?case by (simp only: list.map distinct.simps) simp
  qed
  then show ?thesis by (simp only: g_def)
qed

lemma candidates_pk_insert_rows:
  "distinct (map c_id (candidates d)) \<Longrightarrow> insert_candidate_rows d uid cs = Inr d' \<Longrightarrow>
     distinct (map c_id (candidates d'))"
proof (induction cs arbitrary: d)
  case Nil
  then show ?case by simp
next
  case (Cons c cs)
  from Cons.prems(2) obtain d1 where d1: "insert_candidate_row d uid c = Inr d1"
    and rest: "insert_candidate_rows d1 uid cs = Inr d'"
    by (auto split: sum.splits)
  from d1 Cons.prems(1) have "distinct (map c_id (candidates d1))"
    by (auto simp: insert_candidate_row_def split: if_splits)
  from Cons.IH [OF this rest] show ?case .
qed

lemma candidates_pk_after_exec:
  assumes "distinct (map c_id (candidates d))"
  shows "distinct (map c_id (candidates (commit d (exec d uid s))))"
proof (cases s)
  case (InsertCandidates cs)
  with assms show ?thesis
    by (auto simp: commit_def split: sum.splits dest: candidates_pk_insert_rows)
next
  case (UpdateCandidate i c')
  have "distinct (map c_id (map (\<lambda>c. if c_id c = i then c' else c) (candidates d)))"
    if "c_id c' = i \<or> c_id c' \<notin> c_id ` set (candidates d)"
    using assms that by (rule distinct_map_replace)
  with UpdateCandidate assms show ?thesis
    by (auto simp: commit_def update_candidate_def)
next
  case (DeleteCandidate i)
  with assms show ?thesis
    by (auto simp: commit_def delete_candidate_def distinct_map_filter)
next
  case (DeleteElection i)
  with assms show ?thesis
    by (auto simp: commit_def delete_election_def distinct_map_filter)
qed (use assms in \<open>auto simp: commit_def insert_role_def delete_role_def insert_election_def
      update_election_def insert_vote_def update_votes_def delete_votes_def insert_audit_log_def\<close>)

lemma candidates_pk_after_run:
  "distinct (map c_id (candidates d)) \<Longrightarrow> distinct (map c_id (candidates (run d trace)))"
proof (induction d trace rule: run.induct)
  case (1 d)
  then show ?case by simp
next
  case (2 d uid s rest)
  from candidates_pk_after_exec [OF "2.prems"] "2.IH" show ?case by simp
qed

text \<open>
  Claim C2, at an input where the code departs from it. The election 10 has the
  candidates A (100) and B (101) and three votes: two for A, by the students 2 and 3, and
  one for B, by 4. Called by the student 2, \<^verbatim>\<open>get_vote_counts\<close> returns \<open>(A, 1), (B, 0)\<close>:
  the query runs as the caller, and the SELECT policy of votes shows a student only the
  student's own vote. Called by the admin 1 it returns \<open>(A, 2), (B, 1)\<close>, the counts
  of the committed votes. Before any vote it returns \<open>(A, 0), (B, 0)\<close>.
\<close>

theorem tally_counts_only_visible_votes:
  "map v_candidate_id (votes example_voted) = [100, 100, 101]
   \<and> map v_voter_id (votes example_voted) = [Some 2, Some 3, Some 4]
   \<and> \<not> has_role example_voted (Some 2) Admin
   \<and> get_vote_counts example_voted (Some 2) 10 =
       [\<lparr>candidate_id = 100, candidate_name = ''A'', vote_count = 1\<rparr>,
        \<lparr>candidate_id = 101, candidate_name = ''B'', vote_count = 0\<rparr>]
   \<and> has_role example_voted (Some 1) Admin
   \<and> get_vote_counts example_voted (Some 1) 10 =
       [\<lparr>candidate_id = 100, candidate_name = ''A'', vote_count = 2\<rparr>,
        \<lparr>candidate_id = 101, candidate_name = ''B'', vote_count = 1\<rparr>]
   \<and> votes example_db = []
   \<and> get_vote_counts example_db (Some 2) 10 =
       [\<lparr>candidate_id = 100, candidate_name = ''A'', vote_count = 0\<rparr>,
        \<lparr>candidate_id = 101, candidate_name = ''B'', vote_count = 0\<rparr>]"
  by (simp add: example_voted_def example_db_def get_vote_counts_def left_join_def
      candidates_select_using_def votes_select_using_def authenticated_def has_role_def Let_def)

section \<open>The CSV export\<close>














end
